theory Spec2Isabelle
  imports Complex_Main "HOL-Library.Word" "HOL-Library.Multiset"
begin

section \<open>JavaScript values of the quote generator (dom-manipulation/script.js)\<close>

text \<open>
  A JavaScript string is a sequence of UTF-16 code units. Literals of the script are
  written through \<open>str\<close>, which maps each (ASCII) character to its code unit.
\<close>

type_synonym jschar = "16 word"
type_synonym jsstring = "jschar list"

definition str :: "string \<Rightarrow> jsstring" where
  "str s = map of_char s"

text \<open>
  The values that reach the script are the results of \<open>JSON.parse\<close> and strings read
  from form fields and storage. A number is kept as a rational; the script observes a
  number only through its truthiness. An object is the list of its own properties
  (a name is looked up from the front). \<open>undefined\<close> is \<open>None\<close> of \<open>json option\<close>.
\<close>

datatype json =
    JNull
  | JBool bool
  | JNum rat
  | JStr jsstring
  | JArr "json list"
  | JObj "(jsstring \<times> json) list"

text \<open>Conversion to boolean, as \<open>!x\<close>, \<open>x && ...\<close> and \<open>x ? a : b\<close> apply it.\<close>

fun truthy :: "json \<Rightarrow> bool" where
  "truthy JNull = False"
| "truthy (JBool b) = b"
| "truthy (JNum n) = (n \<noteq> 0)"
| "truthy (JStr s) = (s \<noteq> [])"
| "truthy (JArr xs) = True"
| "truthy (JObj kvs) = True"

fun truthy_opt :: "json option \<Rightarrow> bool" where
  "truthy_opt None = False"
| "truthy_opt (Some v) = truthy v"

text \<open>\<open>typeof x === 'string'\<close>.\<close>

fun typeof_string :: "json option \<Rightarrow> bool" where
  "typeof_string (Some (JStr s)) = True"
| "typeof_string _ = False"

text \<open>
  Property read \<open>v.k\<close> for the names the script reads (\<open>text\<close>, \<open>author\<close>,
  \<open>category\<close>): only an object can own them, every other value yields \<open>undefined\<close>.
  (Reading a property of \<open>null\<close> throws; the script guards each such read by the
  truthiness of the value, and the model returns \<open>None\<close> there.)
\<close>

fun property :: "json \<Rightarrow> jsstring \<Rightarrow> json option" where
  "property (JObj kvs) k = map_of kvs k"
| "property _ k = None"

definition K_text :: jsstring where "K_text = str ''text''"
definition K_author :: jsstring where "K_author = str ''author''"
definition K_category :: jsstring where "K_category = str ''category''"
definition K_all :: jsstring where "K_all = str ''all''"

text \<open>
  \<open>String.prototype.trim\<close> removes leading and trailing code units that are
  WhiteSpace or LineTerminator of ECMAScript.
\<close>

definition is_ws :: "jschar \<Rightarrow> bool" where
  "is_ws c \<longleftrightarrow>
     c = 0x0009 \<or> c = 0x000A \<or> c = 0x000B \<or> c = 0x000C \<or> c = 0x000D \<or> c = 0x0020 \<or>
     c = 0x00A0 \<or> c = 0x1680 \<or> (0x2000 \<le> c \<and> c \<le> 0x200A) \<or> c = 0x2028 \<or> c = 0x2029 \<or>
     c = 0x202F \<or> c = 0x205F \<or> c = 0x3000 \<or> c = 0xFEFF"

definition trim :: "jsstring \<Rightarrow> jsstring" where
  "trim s = rev (dropWhile is_ws (rev (dropWhile is_ws s)))"

text \<open>The string of a value known to be a string (used under \<open>typeof_string\<close> only).\<close>

fun str_of :: "json option \<Rightarrow> jsstring" where
  "str_of (Some (JStr s)) = s"
| "str_of _ = []"


section \<open>Host environment and application state\<close>

text \<open>
  A text handed to \<open>JSON.parse\<close> (the content of the storage key
  \<open>dq_quotes_v1\<close>, or of an imported file) is seen through its parse: the empty
  text, a text that \<open>JSON.parse\<close> rejects, or a text that parses to a value.
  \<open>JSON.stringify v\<close> is the text \<open>JsonText v\<close>.
\<close>

datatype source_text = EmptyText | NotJson | JsonText json

text \<open>
  What the browser decides during one operation: the answer to \<open>confirm\<close>, the value
  of \<open>Math.floor(Math.random() * n)\<close>, and whether \<open>localStorage\<close> and
  \<open>sessionStorage\<close> refuse to store a value (\<open>setItem\<close> then throws
  QuotaExceededError).
\<close>

record host =
  confirm :: bool
  random_floor :: "nat \<Rightarrow> nat"
  local_rejects :: bool
  session_rejects :: bool

datatype exn = TypeError | QuotaExceededError

datatype alert =
    ProvideQuoteText
  | QuoteAdded
  | InvalidFileFormat
  | NoValidQuotes
  | Imported nat
  | ErrorParsingJson

datatype log = SaveError | ImportError

datatype display =
    Untouched
  | QuoteShown json
  | NoQuotesFound jsstring
  | AllQuotesDeleted

text \<open>
  The \<open>categoryFilter\<close> select element: the values given to its options and its
  current value. Assigning a value selects the option that carries it; when there is
  none the element's value becomes empty. (The page turns a value that is not a string
  into a string when it is given to an option; the options keep the value as given here,
  and the script only ever assigns a string that it found among them.)
\<close>

record select =
  option_values :: "json list"
  sel_value :: jsstring

definition set_value :: "jsstring \<Rightarrow> select \<Rightarrow> select" where
  "set_value v el = el\<lparr>sel_value := (if JStr v \<in> set (option_values el) then v else [])\<rparr>"

text \<open>
  The state the script works on: the global \<open>quotes\<close>, the two \<open>localStorage\<close>
  keys (\<open>dq_quotes_v1\<close>, \<open>dq_selectedCategory\<close>), the \<open>sessionStorage\<close> key
  \<open>dq_last_quote\<close> (seen as the value that was stringified), the \<open>categoryFilter\<close>
  element (absent when the page has none), the content of \<open>quoteDisplay\<close>, and the
  alerts and console errors issued so far.
\<close>

record app =
  quotes :: "json list"
  localQuotes :: "source_text option"
  localSelected :: "jsstring option"
  sessionLast :: "json option"
  categoryFilter :: "select option"
  quoteDisplay :: display
  alerts :: "alert list"
  console :: "log list"

text \<open>An operation returns, or throws to its caller; either way it leaves a state.\<close>

datatype outcome = Returned app | Threw exn app

fun state_of :: "outcome \<Rightarrow> app" where
  "state_of (Returned s) = s"
| "state_of (Threw e s) = s"

fun returns :: "outcome \<Rightarrow> bool" where
  "returns (Returned s) = True"
| "returns (Threw e s) = False"

fun and_then :: "outcome \<Rightarrow> (app \<Rightarrow> outcome) \<Rightarrow> outcome" where
  "and_then (Returned s) f = f s"
| "and_then (Threw e s) f = Threw e s"

section \<open>Load and save helpers\<close>

definition DEFAULT_QUOTES :: "json list" where
  "DEFAULT_QUOTES =
    [JObj [(K_text, JStr (str ''The best way to predict the future is to invent it.'')),
           (K_category, JStr (str ''Inspiration'')),
           (K_author, JStr (str ''Alan Kay''))],
     JObj [(K_text, JStr (str ''Simplicity is the soul of efficiency.'')),
           (K_category, JStr (str ''Wisdom'')),
           (K_author, JStr (str ''Austin Freeman''))],
     JObj [(K_text, JStr (str ''If you want to go fast, go alone. If you want to go far, go together.'')),
           (K_category, JStr (str ''Teamwork'')),
           (K_author, JStr (str ''African Proverb''))]]"

text \<open>
  \<open>loadQuotes\<close>: the defaults when the key is absent or empty, when the text does not
  parse, or when it parses to something that is not an array; otherwise the elements
  \<open>q\<close> with \<open>q && typeof q.text === 'string'\<close>. (The function runs before there is a
  state; the console error of its \<open>catch\<close> is not recorded.)
\<close>

fun loadQuotes :: "source_text option \<Rightarrow> json list" where
  "loadQuotes None = DEFAULT_QUOTES"
| "loadQuotes (Some EmptyText) = DEFAULT_QUOTES"
| "loadQuotes (Some NotJson) = DEFAULT_QUOTES"
| "loadQuotes (Some (JsonText (JArr parsed))) =
     filter (\<lambda>q. truthy q \<and> typeof_string (property q K_text)) parsed"
| "loadQuotes (Some (JsonText v)) = DEFAULT_QUOTES"

text \<open>
  \<open>saveQuotes\<close>: the write of \<open>JSON.stringify(quotes)\<close>, or the caught failure logged
  on the console.
\<close>

definition saveQuotes :: "host \<Rightarrow> json list \<Rightarrow> app \<Rightarrow> app" where
  "saveQuotes h qs s =
     (if local_rejects h then s\<lparr>console := console s @ [SaveError]\<rparr>
      else s\<lparr>localQuotes := Some (JsonText (JArr qs))\<rparr>)"

text \<open>\<open>sessionStorage.setItem(SESSION_KEY, JSON.stringify(q))\<close>, outside any \<open>try\<close>.\<close>

definition session_setItem :: "host \<Rightarrow> json \<Rightarrow> app \<Rightarrow> outcome" where
  "session_setItem h q s =
     (if session_rejects h then Threw QuotaExceededError s
      else Returned (s\<lparr>sessionLast := Some q\<rparr>))"

text \<open>
  \<open>localStorage.setItem('dq_selectedCategory', v)\<close>, outside any \<open>try\<close>. Storing the
  value the key already holds does nothing (the first steps of \<open>setItem\<close> in the
  HTML standard), so it cannot hit the quota.
\<close>

definition selected_setItem :: "host \<Rightarrow> jsstring \<Rightarrow> app \<Rightarrow> outcome" where
  "selected_setItem h v s =
     (if localSelected s = Some v then Returned s
      else if local_rejects h then Threw QuotaExceededError s
      else Returned (s\<lparr>localSelected := Some v\<rparr>))"

section \<open>Categories and filtering\<close>

text \<open>\<open>.filter(c => c)\<close> on the list of \<open>q.category\<close> values.\<close>

fun truthy_values :: "json option list \<Rightarrow> json list" where
  "truthy_values [] = []"
| "truthy_values (None # cs) = truthy_values cs"
| "truthy_values (Some c # cs) = (if truthy c then c # truthy_values cs else truthy_values cs)"

text \<open>
  SameValueZero, the equality of \<open>Set\<close> and \<open>Array.prototype.includes\<close>: primitive
  values are compared by value; arrays and objects by identity, and the arrays and
  objects at different places of parsed JSON data are different objects.
\<close>

fun same_value_zero :: "json \<Rightarrow> json \<Rightarrow> bool" where
  "same_value_zero (JArr xs) b = False"
| "same_value_zero (JObj kvs) b = False"
| "same_value_zero a b = (a = b)"

definition array_includes :: "json list \<Rightarrow> json \<Rightarrow> bool" where
  "array_includes xs v = list_ex (same_value_zero v) xs"

text \<open>\<open>[...new Set(xs)]\<close>: each value once, in the order of first insertion.\<close>

definition set_add :: "json list \<Rightarrow> json \<Rightarrow> json list" where
  "set_add acc x = (if array_includes acc x then acc else acc @ [x])"

definition new_Set :: "json list \<Rightarrow> json list" where
  "new_Set xs = foldl set_add [] xs"

definition categories :: "json list \<Rightarrow> json list" where
  "categories qs = new_Set (truthy_values (map (\<lambda>q. property q K_category) qs))"

text \<open>
  The list \<open>filtered\<close> of \<open>filterQuotes\<close>: everything for \<open>all\<close>, otherwise the
  quotes with \<open>q.category === selectedCategory\<close>.
\<close>

definition filtered :: "jsstring \<Rightarrow> json list \<Rightarrow> json list" where
  "filtered selectedCategory qs =
     (if selectedCategory = K_all then qs
      else filter (\<lambda>q. property q K_category = Some (JStr selectedCategory)) qs)"

text \<open>
  \<open>filterQuotes\<close>. Without a \<open>categoryFilter\<close> element the read of its value throws.
  An index outside the pool would read \<open>undefined\<close>, whose \<open>text\<close> cannot be read.
\<close>

definition filterQuotes :: "host \<Rightarrow> app \<Rightarrow> outcome" where
  "filterQuotes h s =
     (case categoryFilter s of
        None \<Rightarrow> Threw TypeError s
      | Some el \<Rightarrow>
          (let selectedCategory = sel_value el in
           and_then (selected_setItem h selectedCategory s) (\<lambda>s1.
             (let pool = filtered selectedCategory (quotes s1) in
              if pool = [] then Returned (s1\<lparr>quoteDisplay := NoQuotesFound selectedCategory\<rparr>)
              else (let i = random_floor h (length pool) in
                    if i < length pool
                    then session_setItem h (pool ! i) (s1\<lparr>quoteDisplay := QuoteShown (pool ! i)\<rparr>)
                    else Threw TypeError s1)))))"

text \<open>
  \<open>populateCategories\<close>: rebuilds the options (\<open>all\<close> first, then one option per
  category) and restores the saved category when it is still a category.
\<close>

definition populateCategories :: "host \<Rightarrow> app \<Rightarrow> outcome" where
  "populateCategories h s =
     (case categoryFilter s of
        None \<Rightarrow> Returned s
      | Some el0 \<Rightarrow>
          (let cats = categories (quotes s);
               el = \<lparr>option_values = JStr K_all # cats, sel_value = K_all\<rparr>;
               s1 = s\<lparr>categoryFilter := Some el\<rparr>
           in case localSelected s of
                None \<Rightarrow> Returned s1
              | Some savedCategory \<Rightarrow>
                  if savedCategory \<noteq> [] \<and> array_includes cats (JStr savedCategory)
                  then filterQuotes h (s1\<lparr>categoryFilter := Some (set_value savedCategory el)\<rparr>)
                  else Returned s1))"


section \<open>Adding a quote\<close>

text \<open>
  The argument of \<open>addQuote\<close>: an object whose \<open>text\<close>, \<open>author\<close> and
  \<open>category\<close> may each be absent.
\<close>

record candidate =
  c_text :: "json option"
  c_author :: "json option"
  c_category :: "json option"

text \<open>
  \<open>author ? author.trim() : ''\<close> (an absent field defaults to \<open>''\<close>): a truthy value
  that is not a string has no \<open>trim\<close> method, and the call throws.
\<close>

fun trim_or_empty :: "json option \<Rightarrow> exn + jsstring" where
  "trim_or_empty None = Inr []"
| "trim_or_empty (Some (JStr a)) = Inr (if a = [] then [] else trim a)"
| "trim_or_empty (Some v) = (if truthy v then Inl TypeError else Inr [])"

definition quote_object :: "jsstring \<Rightarrow> jsstring \<Rightarrow> jsstring \<Rightarrow> json" where
  "quote_object t a c = JObj [(K_text, JStr t), (K_author, JStr a), (K_category, JStr c)]"

text \<open>
  \<open>addQuote\<close>. The throw of a failed \<open>trim\<close> comes before anything is changed. (The
  form fields that are emptied at the end are not part of the state.)
\<close>

definition addQuote :: "host \<Rightarrow> candidate \<Rightarrow> app \<Rightarrow> outcome" where
  "addQuote h c s =
     (if \<not> truthy_opt (c_text c) \<or> \<not> typeof_string (c_text c) \<or> trim (str_of (c_text c)) = []
      then Returned (s\<lparr>alerts := alerts s @ [ProvideQuoteText]\<rparr>)
      else
        case trim_or_empty (c_author c) of
          Inl e \<Rightarrow> Threw e s
        | Inr author \<Rightarrow>
           (case trim_or_empty (c_category c) of
              Inl e \<Rightarrow> Threw e s
            | Inr category \<Rightarrow>
               (let newQuote = quote_object (trim (str_of (c_text c))) author category;
                    duplicate = list_ex (\<lambda>q. property q K_text = property newQuote K_text) (quotes s)
                in if duplicate \<and> \<not> confirm h then Returned s
                   else
                     (let s1 = s\<lparr>quotes := quotes s @ [newQuote]\<rparr>;
                          s2 = saveQuotes h (quotes s1) s1;
                          s3 = s2\<lparr>quoteDisplay := QuoteShown newQuote\<rparr>
                      in and_then (session_setItem h newQuote s3) (\<lambda>s4.
                           populateCategories h (s4\<lparr>alerts := alerts s4 @ [QuoteAdded]\<rparr>))))))"

section \<open>Export and import\<close>

text \<open>\<open>exportToJson\<close>: the content of the downloaded file, \<open>JSON.stringify(quotes, null, 2)\<close>.\<close>

definition exportToJson :: "app \<Rightarrow> source_text" where
  "exportToJson s = JsonText (JArr (quotes s))"

text \<open>\<open>(x && typeof x === 'string') ? x.trim() : ''\<close>.\<close>

definition string_trim_or_empty :: "json option \<Rightarrow> jsstring" where
  "string_trim_or_empty x = (if truthy_opt x \<and> typeof_string x then trim (str_of x) else [])"

text \<open>The \<open>reduce\<close> that keeps and normalises the usable items.\<close>

fun valid_items :: "json list \<Rightarrow> json list" where
  "valid_items [] = []"
| "valid_items (item # rest) =
     (if truthy item \<and> typeof_string (property item K_text) \<and> trim (str_of (property item K_text)) \<noteq> []
      then quote_object (trim (str_of (property item K_text)))
             (string_trim_or_empty (property item K_author))
             (string_trim_or_empty (property item K_category)) # valid_items rest
      else valid_items rest)"

text \<open>
  \<open>new Set(quotes.map(q => q.text))\<close> and its \<open>has\<close>: membership up to SameValueZero
  (\<open>undefined\<close> is a member when some quote has no \<open>text\<close>).
\<close>

definition existingTexts :: "json list \<Rightarrow> json option list" where
  "existingTexts qs = map (\<lambda>q. property q K_text) qs"

fun has :: "json option list \<Rightarrow> json option \<Rightarrow> bool" where
  "has xs None = (None \<in> set xs)"
| "has xs (Some v) = list_ex (\<lambda>x. case x of None \<Rightarrow> False | Some w \<Rightarrow> same_value_zero v w) xs"

definition toAdd :: "json list \<Rightarrow> json list \<Rightarrow> json list" where
  "toAdd qs valid = filter (\<lambda>q. \<not> has (existingTexts qs) (property q K_text)) valid"

text \<open>
  \<open>importFromJsonFile\<close>, with the \<open>onload\<close> callback run on the content of the chosen
  file (\<open>None\<close>: no file chosen). The whole callback sits in a \<open>try\<close>, so nothing is
  thrown to the caller. The function \<open>populateCategoryFilter\<close> called after the report
  is not defined in this script: the call throws a ReferenceError, which the \<open>catch\<close>
  turns into a console error and the alert for a parse error.
\<close>

definition import_failed :: "app \<Rightarrow> app" where
  "import_failed s = s\<lparr>console := console s @ [ImportError], alerts := alerts s @ [ErrorParsingJson]\<rparr>"

definition import_items :: "host \<Rightarrow> json list \<Rightarrow> app \<Rightarrow> app" where
  "import_items h imported s =
     (let valid = valid_items imported in
      if valid = [] then s\<lparr>alerts := alerts s @ [NoValidQuotes]\<rparr>
      else
        (let new = toAdd (quotes s) valid in
         if new = [] \<and> \<not> confirm h then s
         else
           (let s1 = s\<lparr>quotes := quotes s @ (if new = [] then valid else new)\<rparr>;
                s2 = saveQuotes h (quotes s1) s1;
                s3 = s2\<lparr>alerts := alerts s2 @ [Imported (length new)]\<rparr>
            in import_failed s3)))"

fun importFromJsonFile :: "host \<Rightarrow> source_text option \<Rightarrow> app \<Rightarrow> outcome" where
  "importFromJsonFile h None s = Returned s"
| "importFromJsonFile h (Some EmptyText) s = Returned (import_failed s)"
| "importFromJsonFile h (Some NotJson) s = Returned (import_failed s)"
| "importFromJsonFile h (Some (JsonText (JArr imported))) s = Returned (import_items h imported s)"
| "importFromJsonFile h (Some (JsonText v)) s = Returned (s\<lparr>alerts := alerts s @ [InvalidFileFormat]\<rparr>)"

section \<open>Clearing\<close>

definition clearAllQuotes :: "host \<Rightarrow> app \<Rightarrow> outcome" where
  "clearAllQuotes h s =
     (if \<not> confirm h then Returned s
      else
        (let s1 = s\<lparr>quotes := []\<rparr>;
             s2 = saveQuotes h (quotes s1) s1
         in populateCategories h (s2\<lparr>quoteDisplay := AllQuotesDeleted\<rparr>)))"

section \<open>Reachable states\<close>

text \<open>
  The states of a page whose \<open>dq_quotes_v1\<close> key held \<open>raw\<close> when the script
  started: \<open>quotes\<close> is first \<open>loadQuotes raw\<close>, and is then changed by adding,
  importing and clearing (a step that throws still leaves its state behind).
\<close>

inductive reachable :: "source_text option \<Rightarrow> app \<Rightarrow> bool" for raw where
  r_load: "quotes s = loadQuotes raw \<Longrightarrow> reachable raw s"
| r_add: "reachable raw s \<Longrightarrow> reachable raw (state_of (addQuote h c s))"
| r_import: "reachable raw s \<Longrightarrow> reachable raw (state_of (importFromJsonFile h file s))"
| r_clear: "reachable raw s \<Longrightarrow> reachable raw (state_of (clearAllQuotes h s))"

section \<open>Vocabulary of the properties\<close>

text \<open>The \<open>text\<close> of an element is a string; it is a string that is not empty and trimmed.\<close>

definition has_string_text :: "json \<Rightarrow> bool" where
  "has_string_text q = typeof_string (property q K_text)"

definition nonempty_trimmed_text :: "json \<Rightarrow> bool" where
  "nonempty_trimmed_text q =
     (case property q K_text of Some (JStr t) \<Rightarrow> t \<noteq> [] \<and> trim t = t | _ \<Rightarrow> False)"

text \<open>
  A Quote of the specification's data model: a non-empty trimmed \<open>text\<close>, and an
  \<open>author\<close> and a \<open>category\<close> that are absent or trimmed strings. Its record
  \<open>{text, author, category}\<close> takes an absent attribute as the empty string.
\<close>

definition is_Quote :: "json \<Rightarrow> bool" where
  "is_Quote q \<longleftrightarrow>
     (case property q K_text of Some (JStr t) \<Rightarrow> t \<noteq> [] \<and> trim t = t | _ \<Rightarrow> False) \<and>
     (case property q K_author of None \<Rightarrow> True | Some (JStr a) \<Rightarrow> trim a = a | _ \<Rightarrow> False) \<and>
     (case property q K_category of None \<Rightarrow> True | Some (JStr c) \<Rightarrow> trim c = c | _ \<Rightarrow> False)"

definition fields :: "json \<Rightarrow> jsstring \<times> jsstring \<times> jsstring" where
  "fields q = (str_of (property q K_text), str_of (property q K_author), str_of (property q K_category))"

definition string_category :: "json \<Rightarrow> bool" where
  "string_category q =
     (case property q K_category of None \<Rightarrow> True | Some (JStr c) \<Rightarrow> True | _ \<Rightarrow> False)"

text \<open>
  The specification's \<open>listCategories\<close>, in its own words: the distinct non-empty
  category strings, in the order of their first occurrence in the collection.
\<close>

fun first_occurrences :: "'a list \<Rightarrow> 'a list" where
  "first_occurrences [] = []"
| "first_occurrences (x # xs) = x # first_occurrences (filter (\<lambda>y. y \<noteq> x) xs)"

definition listCategories_spec :: "json list \<Rightarrow> jsstring list" where
  "listCategories_spec qs =
     first_occurrences (filter (\<lambda>c. c \<noteq> []) (map (\<lambda>q. str_of (property q K_category)) qs))"

text \<open>
  A state without what \<open>saveQuotes\<close> touches (the stored collection and the console):
  two states that agree on it have the same in-memory collection, page and other keys.
\<close>

definition forget_durable :: "app \<Rightarrow> app" where
  "forget_durable s = s\<lparr>localQuotes := None, console := []\<rparr>"

fun map_outcome :: "(app \<Rightarrow> app) \<Rightarrow> outcome \<Rightarrow> outcome" where
  "map_outcome f (Returned s) = Returned (f s)"
| "map_outcome f (Threw e s) = Threw e (f s)"

text \<open>
  Concrete inputs for the examples: a browser that confirms, always draws index 0 and
  stores everything; a fresh page holding a given collection; some quotes.
\<close>

definition ex_host :: host where
  "ex_host = \<lparr>confirm = True, random_floor = (\<lambda>n. 0), local_rejects = False, session_rejects = False\<rparr>"

definition ex_app :: "json list \<Rightarrow> app" where
  "ex_app qs = \<lparr>quotes = qs, localQuotes = None, localSelected = None, sessionLast = None,
     categoryFilter = Some \<lparr>option_values = [JStr K_all], sel_value = K_all\<rparr>,
     quoteDisplay = Untouched, alerts = [], console = []\<rparr>"

definition ex_quote :: "string \<Rightarrow> string \<Rightarrow> json" where
  "ex_quote t c = quote_object (str t) [] (str c)"

definition ex_item :: "string \<Rightarrow> json" where
  "ex_item t = JObj [(K_text, JStr (str t))]"

definition ex_candidate :: "string \<Rightarrow> candidate" where
  "ex_candidate t = \<lparr>c_text = Some (JStr (str t)), c_author = None, c_category = None\<rparr>"

section \<open>Basic facts\<close>

lemma keys_distinct [simp]:
  "K_text \<noteq> K_author" "K_text \<noteq> K_category" "K_author \<noteq> K_category"
  "K_author \<noteq> K_text" "K_category \<noteq> K_text" "K_category \<noteq> K_author"
  by (simp_all add: K_text_def K_author_def K_category_def str_def)

lemma property_quote_object [simp]:
  "property (quote_object t a c) K_text = Some (JStr t)"
  "property (quote_object t a c) K_author = Some (JStr a)"
  "property (quote_object t a c) K_category = Some (JStr c)"
  by (simp_all add: quote_object_def)

lemma truthy_quote_object [simp]: "truthy (quote_object t a c)"
  by (simp add: quote_object_def)

lemma trim_Nil [simp]: "trim [] = []"
  by (simp add: trim_def)

lemma trim_idem: "trim (trim s) = trim s"
proof -
  let ?a = "dropWhile is_ws s"
  let ?b = "dropWhile is_ws (rev ?a)"
  have "dropWhile is_ws (rev ?b) = rev ?b"
  proof (cases "?b = []")
    case True
    then show ?thesis by (simp only: rev.simps dropWhile.simps)
  next
    case False
    then obtain x where x: "x \<in> set (rev ?a)" "\<not> is_ws x"
      by auto
    then have "last ?b = last (rev ?a)"
      by (rule dropWhile_last)
    also have "\<dots> = hd ?a"
      using x(1) by (cases ?a) simp_all
    finally have "hd (rev ?b) = hd ?a"
      using False by (simp add: hd_rev)
    moreover have "?a \<noteq> []"
      using x(1) by (metis empty_iff list.set(1) set_rev)
    then have "\<not> is_ws (hd ?a)"
      by (rule hd_dropWhile)
    ultimately show ?thesis
      by (simp add: dropWhile_eq_self_iff)
  qed
  then show ?thesis
    by (simp add: trim_def)
qed

lemma has_string: "has xs (Some (JStr t)) = (Some (JStr t) \<in> set xs)"
  by (induction xs) (auto split: option.splits)

lemma has_Nil [simp]: "has [] x = False"
  by (cases x) simp_all

lemma array_includes_string: "array_includes xs (JStr v) = (JStr v \<in> set xs)"
  by (induction xs) (auto simp: array_includes_def)

lemma state_of_map_outcome [simp]: "state_of (map_outcome f r) = f (state_of r)"
  by (cases r) simp_all

lemma returns_map_outcome [simp]: "returns (map_outcome f r) = returns r"
  by (cases r) simp_all

subsection \<open>What each operation does to \<open>quotes\<close>\<close>

lemma quotes_saveQuotes [simp]: "quotes (saveQuotes h qs s) = quotes s"
  by (simp add: saveQuotes_def)

lemma alerts_saveQuotes [simp]: "alerts (saveQuotes h qs s) = alerts s"
  by (simp add: saveQuotes_def)

lemma quotes_session_setItem [simp]: "quotes (state_of (session_setItem h q s)) = quotes s"
  by (simp add: session_setItem_def)

lemma quotes_selected_setItem [simp]: "quotes (state_of (selected_setItem h v s)) = quotes s"
  by (simp add: selected_setItem_def)

lemma quotes_filterQuotes [simp]: "quotes (state_of (filterQuotes h s)) = quotes s"
  by (cases "categoryFilter s"; cases "selected_setItem h (sel_value (the (categoryFilter s))) s")
     (auto simp: filterQuotes_def Let_def session_setItem_def selected_setItem_def split: if_splits)

lemma categoryFilter_filterQuotes [simp]:
  "categoryFilter (state_of (filterQuotes h s)) = categoryFilter s"
  by (cases "categoryFilter s"; cases "selected_setItem h (sel_value (the (categoryFilter s))) s")
     (auto simp: filterQuotes_def Let_def session_setItem_def selected_setItem_def split: if_splits)

lemma quotes_populateCategories [simp]: "quotes (state_of (populateCategories h s)) = quotes s"
  by (auto simp: populateCategories_def Let_def split: option.splits)

lemma quotes_addQuote:
  "quotes (state_of (addQuote h c s)) = quotes s \<or>
   (\<exists>a b. trim (str_of (c_text c)) \<noteq> [] \<and>
      quotes (state_of (addQuote h c s)) = quotes s @ [quote_object (trim (str_of (c_text c))) a b])"
  by (auto simp: addQuote_def Let_def session_setItem_def split: sum.splits)

lemma quotes_import_failed [simp]: "quotes (import_failed s) = quotes s"
  by (simp add: import_failed_def)

lemma alerts_import_failed [simp]: "alerts (import_failed s) = alerts s @ [ErrorParsingJson]"
  by (simp add: import_failed_def)

lemma quotes_import_items:
  "quotes (import_items h imported s) = quotes s \<or>
   quotes (import_items h imported s) = quotes s @ valid_items imported \<or>
   quotes (import_items h imported s) = quotes s @ toAdd (quotes s) (valid_items imported)"
  by (auto simp: import_items_def import_failed_def Let_def)

lemma quotes_clearAllQuotes:
  "quotes (state_of (clearAllQuotes h s)) = quotes s \<or> quotes (state_of (clearAllQuotes h s)) = []"
  by (simp add: clearAllQuotes_def Let_def)

subsection \<open>The items an import keeps and adds\<close>

lemma nonempty_trimmed_quote_object:
  "trim t \<noteq> [] \<Longrightarrow> nonempty_trimmed_text (quote_object (trim t) a c)"
  by (simp add: nonempty_trimmed_text_def trim_idem)

lemma nonempty_trimmed_has_string: "nonempty_trimmed_text q \<Longrightarrow> has_string_text q"
  by (auto simp: nonempty_trimmed_text_def has_string_text_def split: option.splits json.splits)

lemma valid_items_trimmed: "q \<in> set (valid_items xs) \<Longrightarrow> nonempty_trimmed_text q"
  by (induction xs) (auto simp: nonempty_trimmed_quote_object split: if_splits)

lemma valid_items_text: "q \<in> set (valid_items xs) \<Longrightarrow> \<exists>t. property q K_text = Some (JStr t)"
  by (induction xs) (auto split: if_splits)

lemma set_toAdd: "set (toAdd qs valid) \<subseteq> set valid"
  by (auto simp: toAdd_def)

lemma toAdd_valid:
  "toAdd qs (valid_items xs) =
     filter (\<lambda>q. property q K_text \<notin> set (existingTexts qs)) (valid_items xs)"
  unfolding toAdd_def
  by (rule filter_cong) (auto dest!: valid_items_text simp: has_string simp del: has.simps)

lemma toAdd_empty_store: "toAdd [] valid = valid"
  by (simp add: toAdd_def existingTexts_def)

lemma toAdd_after_append_new:
  "toAdd (qs @ toAdd qs (valid_items xs)) (valid_items xs) = []"
  unfolding toAdd_valid by (auto simp: filter_empty_conv existingTexts_def)

lemma toAdd_after_append_all:
  "toAdd (qs @ valid_items xs) (valid_items xs) = []"
  unfolding toAdd_valid by (auto simp: filter_empty_conv existingTexts_def)

lemma import_items_new:
  assumes "toAdd (quotes s) (valid_items imported) \<noteq> []"
  shows "import_items h imported s =
     import_failed ((saveQuotes h (quotes s @ toAdd (quotes s) (valid_items imported))
        (s\<lparr>quotes := quotes s @ toAdd (quotes s) (valid_items imported)\<rparr>))
        \<lparr>alerts := alerts s @ [Imported (length (toAdd (quotes s) (valid_items imported)))]\<rparr>)"
proof -
  from assms have "valid_items imported \<noteq> []" by (auto simp: toAdd_def)
  with assms show ?thesis by (simp add: import_items_def Let_def saveQuotes_def)
qed

lemma import_items_dup_confirmed:
  assumes "valid_items imported \<noteq> []" "toAdd (quotes s) (valid_items imported) = []" "confirm h"
  shows "import_items h imported s =
     import_failed ((saveQuotes h (quotes s @ valid_items imported)
        (s\<lparr>quotes := quotes s @ valid_items imported\<rparr>))
        \<lparr>alerts := alerts s @ [Imported 0]\<rparr>)"
  using assms by (simp add: import_items_def Let_def saveQuotes_def)

lemma import_items_declined_dup:
  "\<not> confirm h \<Longrightarrow> toAdd (quotes s) (valid_items xs) = [] \<Longrightarrow> quotes (import_items h xs s) = quotes s"
  by (simp add: import_items_def Let_def)

lemma quotes_importFromJsonFile:
  "quotes (state_of (importFromJsonFile h f s)) = quotes s \<or>
   (\<exists>ys. (\<forall>q\<in>set ys. nonempty_trimmed_text q) \<and>
      quotes (state_of (importFromJsonFile h f s)) = quotes s @ ys)"
proof (cases "\<exists>imported. f = Some (JsonText (JArr imported))")
  case True
  then obtain imported where f: "f = Some (JsonText (JArr imported))" by blast
  from quotes_import_items [of h imported s] show ?thesis
    unfolding f using valid_items_trimmed set_toAdd by (auto; blast)
next
  case False
  then have "quotes (state_of (importFromJsonFile h f s)) = quotes s"
    by (cases "(h, f, s)" rule: importFromJsonFile.cases) (auto simp: import_failed_def)
  then show ?thesis ..
qed

lemma loadQuotes_string_text: "q \<in> set (loadQuotes raw) \<Longrightarrow> has_string_text q"
  by (cases raw rule: loadQuotes.cases)
     (auto simp: has_string_text_def DEFAULT_QUOTES_def)

lemma DEFAULT_QUOTES_trimmed: "list_all nonempty_trimmed_text DEFAULT_QUOTES"
  by (simp add: DEFAULT_QUOTES_def nonempty_trimmed_text_def trim_def str_def is_ws_def)

section \<open>The text invariant of the collection\<close>

lemma reachable_elements:
  assumes "reachable raw s"
  shows "\<forall>q\<in>set (quotes s). (q \<in> set (loadQuotes raw) \<and> has_string_text q) \<or> nonempty_trimmed_text q"
  using assms
proof (induction rule: reachable.induct)
  case (r_load s)
  then show ?case by (simp add: loadQuotes_string_text)
next
  case (r_add s h c)
  from quotes_addQuote [of h c s] r_add.IH show ?case
    by (auto simp: nonempty_trimmed_quote_object)
next
  case (r_import s h f)
  from quotes_importFromJsonFile [of h f s] r_import.IH show ?case
    by auto
next
  case (r_clear s h)
  from quotes_clearAllQuotes [of h s] r_clear.IH show ?case
    by auto
qed

text \<open>
  Claim C1, as the code has it. In every state reachable through loading, adding,
  importing and clearing, each element of \<open>quotes\<close> has a string \<open>text\<close>, and each
  element that was not taken over from storage by \<open>loadQuotes\<close> has a non-empty
  trimmed \<open>text\<close>. \<open>loadQuotes\<close> keeps a stored element as soon as its \<open>text\<close> is a
  string; \<open>addQuote\<close> and the import insert trimmed, non-empty texts only. So every
  element has a non-empty trimmed \<open>text\<close> when the loaded elements have one, as they
  do when the storage key is absent and the defaults are used.
\<close>

theorem reachable_text_invariant:
  assumes "reachable raw s"
  shows "(\<forall>q\<in>set (quotes s). (q \<in> set (loadQuotes raw) \<and> has_string_text q) \<or> nonempty_trimmed_text q) \<and>
         (\<forall>q\<in>set (quotes s). has_string_text q) \<and>
         (list_all nonempty_trimmed_text (loadQuotes raw) \<longrightarrow> list_all nonempty_trimmed_text (quotes s)) \<and>
         (raw = None \<longrightarrow> list_all nonempty_trimmed_text (quotes s))"
proof -
  note e = reachable_elements [OF assms]
  have a: "\<forall>q\<in>set (quotes s). has_string_text q"
    using e nonempty_trimmed_has_string by blast
  have b: "list_all nonempty_trimmed_text (quotes s)" if "list_all nonempty_trimmed_text (loadQuotes raw)"
    using e that unfolding list_all_iff by blast
  have c: "list_all nonempty_trimmed_text (quotes s)" if "raw = None"
  proof -
    have "list_all nonempty_trimmed_text (loadQuotes raw)"
      unfolding that loadQuotes.simps by (rule DEFAULT_QUOTES_trimmed)
    then show ?thesis by (rule b)
  qed
  show ?thesis
    using e a b c by (intro conjI impI)
qed

text \<open>
  An instance: storage holds one quote with an untrimmed text, and a quote is added.
  The stored quote is kept as it is, the added one is trimmed.
\<close>

theorem reachable_text_invariant_witness:
  "reachable (Some (JsonText (JArr [ex_item '' kept '', JNull])))
     (state_of (addQuote ex_host (ex_candidate '' added '')
        (ex_app (loadQuotes (Some (JsonText (JArr [ex_item '' kept '', JNull]))))))) \<and>
   quotes (state_of (addQuote ex_host (ex_candidate '' added '')
        (ex_app (loadQuotes (Some (JsonText (JArr [ex_item '' kept '', JNull]))))))) =
     [ex_item '' kept '', quote_object (str ''added'') [] []] \<and>
   list_all (\<lambda>q. (q \<in> set (loadQuotes (Some (JsonText (JArr [ex_item '' kept '', JNull])))) \<and> has_string_text q)
                 \<or> nonempty_trimmed_text q)
     (quotes (state_of (addQuote ex_host (ex_candidate '' added '')
        (ex_app (loadQuotes (Some (JsonText (JArr [ex_item '' kept '', JNull]))))))))"
proof -
  let ?raw = "Some (JsonText (JArr [ex_item '' kept '', JNull]))"
  let ?s = "state_of (addQuote ex_host (ex_candidate '' added '') (ex_app (loadQuotes ?raw)))"
  have r: "reachable ?raw ?s"
    by (rule r_add, rule r_load) (simp add: ex_app_def)
  have q: "quotes ?s = [ex_item '' kept '', quote_object (str ''added'') [] []]"
    by (simp add: addQuote_def ex_candidate_def ex_app_def ex_item_def ex_host_def Let_def
          session_setItem_def trim_def str_def is_ws_def)
  from reachable_text_invariant [OF r]
  have "\<forall>q\<in>set (quotes ?s). (q \<in> set (loadQuotes ?raw) \<and> has_string_text q) \<or> nonempty_trimmed_text q"
    by (rule conjunct1)
  then have "list_all (\<lambda>q. (q \<in> set (loadQuotes ?raw) \<and> has_string_text q) \<or> nonempty_trimmed_text q) (quotes ?s)"
    by (simp only: list_all_iff)
  with r q show ?thesis
    by (intro conjI)
qed

text \<open>
  Claim C1 as stated fails: a stored element whose \<open>text\<close> is blank passes the filter
  of \<open>loadQuotes\<close> and is an element of the collection.
\<close>

theorem loadQuotes_keeps_blank_text_counterexample:
  "loadQuotes (Some (JsonText (JArr [ex_item ''  '']))) = [ex_item ''  ''] \<and>
   reachable (Some (JsonText (JArr [ex_item ''  '']))) (ex_app [ex_item ''  '']) \<and>
   \<not> nonempty_trimmed_text (ex_item ''  '')"
proof -
  have l: "loadQuotes (Some (JsonText (JArr [ex_item ''  '']))) = [ex_item ''  '']"
    by (simp add: ex_item_def str_def)
  have "reachable (Some (JsonText (JArr [ex_item ''  '']))) (ex_app [ex_item ''  ''])"
    by (rule r_load) (simp add: ex_app_def ex_item_def)
  moreover have "\<not> nonempty_trimmed_text (ex_item ''  '')"
    by (simp add: nonempty_trimmed_text_def ex_item_def trim_def str_def is_ws_def)
  ultimately show ?thesis using l by simp
qed

section \<open>Rejecting a blank text\<close>

text \<open>
  Claim C3. When the candidate's text is absent, empty or blank after trimming,
  \<open>addQuote\<close> returns with the alert that asks for a quote text and changes nothing
  else: the collection and the stored collection are as before.
\<close>

theorem addQuote_rejects_blank_text:
  assumes "c_text c = None \<or> (\<exists>t. c_text c = Some (JStr t) \<and> trim t = [])"
  shows "addQuote h c s = Returned (s\<lparr>alerts := alerts s @ [ProvideQuoteText]\<rparr>)"
  using assms by (auto simp: addQuote_def)

theorem addQuote_rejects_blank_text_witness:
  "trim (str ''   '') = [] \<and>
   addQuote ex_host (ex_candidate ''   '') (ex_app DEFAULT_QUOTES) =
     Returned ((ex_app DEFAULT_QUOTES)\<lparr>alerts := [ProvideQuoteText]\<rparr>)"
proof -
  have b: "trim (str ''   '') = []"
    by (simp add: trim_def str_def is_ws_def)
  then have "c_text (ex_candidate ''   '') = None \<or>
      (\<exists>t. c_text (ex_candidate ''   '') = Some (JStr t) \<and> trim t = [])"
    by (simp add: ex_candidate_def)
  from addQuote_rejects_blank_text [OF this, of ex_host "ex_app DEFAULT_QUOTES"] b
  show ?thesis by (simp add: ex_app_def)
qed

section \<open>Importing\<close>

text \<open>
  Claim C2, as the code has it. For an import whose usable items are not all dropped:
  when some item has a text that is not in the collection, exactly the items with such
  a text are appended; when every item duplicates a text of the collection, the whole
  filtered set is appended if the user confirms, and nothing happens if not. Whenever
  items are appended, the alert reports the number of items whose text was not in the
  collection (the length of \<open>toAdd\<close>): the number of items appended in the first
  case, and 0 when the duplicates are appended.
\<close>

theorem import_appends_and_reports_new:
  assumes "valid_items imported \<noteq> []"
  shows "(toAdd (quotes s) (valid_items imported) \<noteq> [] \<longrightarrow>
            quotes (state_of (importFromJsonFile h (Some (JsonText (JArr imported))) s)) =
              quotes s @ filter (\<lambda>q. property q K_text \<notin> set (existingTexts (quotes s))) (valid_items imported)) \<and>
         (toAdd (quotes s) (valid_items imported) = [] \<and> confirm h \<longrightarrow>
            quotes (state_of (importFromJsonFile h (Some (JsonText (JArr imported))) s)) =
              quotes s @ valid_items imported) \<and>
         (toAdd (quotes s) (valid_items imported) = [] \<and> \<not> confirm h \<longrightarrow>
            importFromJsonFile h (Some (JsonText (JArr imported))) s = Returned s) \<and>
         (toAdd (quotes s) (valid_items imported) \<noteq> [] \<or> confirm h \<longrightarrow>
            (\<exists>rest. alerts (state_of (importFromJsonFile h (Some (JsonText (JArr imported))) s)) =
               alerts s @ Imported (length (filter (\<lambda>q. property q K_text \<notin> set (existingTexts (quotes s)))
                  (valid_items imported))) # rest))"
proof (cases "toAdd (quotes s) (valid_items imported) = []")
  case True
  note dup = this
  show ?thesis
  proof (cases "confirm h")
    case True
    from import_items_dup_confirmed [OF assms dup True] dup True show ?thesis
      by (simp add: toAdd_valid)
  next
    case False
    with dup assms show ?thesis by (simp add: import_items_def Let_def)
  qed
next
  case False
  from import_items_new [OF False] False show ?thesis
    by (simp add: toAdd_valid)
qed

text \<open>
  Three instances on a collection that holds quote \<open>a\<close>. The file holds \<open>a\<close> and
  \<open>b\<close>: only \<open>b\<close> is appended, and the alert says 1. The file holds \<open>a\<close> and the
  user confirms: \<open>a\<close> is appended again. The file holds \<open>a\<close> and the user declines:
  the state is unchanged.
\<close>

theorem import_appends_and_reports_new_witness:
  "valid_items [ex_item ''a'', ex_item ''b''] \<noteq> [] \<and>
   valid_items [ex_item ''a''] \<noteq> [] \<and>
   quotes (state_of (importFromJsonFile ex_host (Some (JsonText (JArr [ex_item ''a'', ex_item ''b''])))
      (ex_app [ex_quote ''a'' ''A'']))) = [ex_quote ''a'' ''A'', quote_object (str ''b'') [] []] \<and>
   (\<exists>rest. alerts (state_of (importFromJsonFile ex_host (Some (JsonText (JArr [ex_item ''a'', ex_item ''b''])))
      (ex_app [ex_quote ''a'' ''A'']))) = alerts (ex_app [ex_quote ''a'' ''A'']) @ Imported 1 # rest) \<and>
   quotes (state_of (importFromJsonFile ex_host (Some (JsonText (JArr [ex_item ''a''])))
      (ex_app [ex_quote ''a'' ''A'']))) = [ex_quote ''a'' ''A'', quote_object (str ''a'') [] []] \<and>
   importFromJsonFile (ex_host\<lparr>confirm := False\<rparr>) (Some (JsonText (JArr [ex_item ''a''])))
      (ex_app [ex_quote ''a'' ''A'']) = Returned (ex_app [ex_quote ''a'' ''A''])"
proof -
  let ?s = "ex_app [ex_quote ''a'' ''A'']"
  have v: "valid_items [ex_item ''a'', ex_item ''b''] =
      [quote_object (str ''a'') [] [], quote_object (str ''b'') [] []]"
    by (simp add: ex_item_def string_trim_or_empty_def trim_def str_def is_ws_def)
  have v1: "valid_items [ex_item ''a''] = [quote_object (str ''a'') [] []]"
    by (simp add: ex_item_def string_trim_or_empty_def trim_def str_def is_ws_def)
  have t: "toAdd (quotes ?s) [quote_object (str ''a'') [] [], quote_object (str ''b'') [] []] =
      [quote_object (str ''b'') [] []]"
    by (simp add: toAdd_def existingTexts_def ex_app_def ex_quote_def str_def)
  have t1: "toAdd (quotes ?s) [quote_object (str ''a'') [] []] = []"
    by (simp add: toAdd_def existingTexts_def ex_app_def ex_quote_def str_def)
  have f: "filter (\<lambda>q. property q K_text \<notin> set (existingTexts (quotes ?s)))
      [quote_object (str ''a'') [] [], quote_object (str ''b'') [] []] = [quote_object (str ''b'') [] []]"
    by (simp add: existingTexts_def ex_app_def ex_quote_def str_def)
  have n: "valid_items [ex_item ''a'', ex_item ''b''] \<noteq> []"
    by (simp only: v) simp
  have n1: "valid_items [ex_item ''a''] \<noteq> []"
    by (simp only: v1) simp
  have c: "confirm ex_host" "\<not> confirm (ex_host\<lparr>confirm := False\<rparr>)"
    by (simp_all add: ex_host_def)
  have q: "quotes ?s = [ex_quote ''a'' ''A'']"
    by (simp add: ex_app_def)
  from import_appends_and_reports_new [OF n, of ?s ex_host]
  have i1: "quotes (state_of (importFromJsonFile ex_host (Some (JsonText (JArr [ex_item ''a'', ex_item ''b'']))) ?s)) =
      [ex_quote ''a'' ''A'', quote_object (str ''b'') [] []] \<and>
    (\<exists>rest. alerts (state_of (importFromJsonFile ex_host (Some (JsonText (JArr [ex_item ''a'', ex_item ''b'']))) ?s)) =
      alerts ?s @ Imported 1 # rest)"
    unfolding v t f by (simp add: q)
  from import_appends_and_reports_new [OF n1, of ?s ex_host] c(1)
  have i2: "quotes (state_of (importFromJsonFile ex_host (Some (JsonText (JArr [ex_item ''a'']))) ?s)) =
      [ex_quote ''a'' ''A'', quote_object (str ''a'') [] []]"
    unfolding v1 t1 by (simp add: q)
  from import_appends_and_reports_new [OF n1, of ?s "ex_host\<lparr>confirm := False\<rparr>"] c(2)
  have i3: "importFromJsonFile (ex_host\<lparr>confirm := False\<rparr>) (Some (JsonText (JArr [ex_item ''a'']))) ?s = Returned ?s"
    unfolding v1 t1 by simp
  from n n1 i1 i2 i3 show ?thesis
    by (intro conjI) simp_all
qed

text \<open>
  Claim C2 as stated fails on the reported count: the collection holds quote \<open>a\<close>, the
  file holds \<open>a\<close> again and the user confirms. One item is appended; the alert says 0.
\<close>

theorem import_reports_zero_for_duplicates_counterexample:
  "quotes (state_of (importFromJsonFile ex_host (Some (JsonText (JArr [ex_item ''a''])))
      (ex_app [ex_quote ''a'' ''A'']))) = [ex_quote ''a'' ''A'', quote_object (str ''a'') [] []] \<and>
   hd (alerts (state_of (importFromJsonFile ex_host (Some (JsonText (JArr [ex_item ''a''])))
      (ex_app [ex_quote ''a'' ''A''])))) = Imported 0"
  by (simp add: import_items_def import_failed_def saveQuotes_def toAdd_def existingTexts_def Let_def
        ex_item_def ex_quote_def ex_app_def ex_host_def string_trim_or_empty_def trim_def str_def is_ws_def)

text \<open>
  Claim C10. When some usable item has a text that is not in the collection, the items
  appended are those whose text is not a text of the collection as it was before the
  import. So for a text that the prior collection does not hold, every usable item of
  the file with that text is appended: items of one file are not deduplicated against
  each other.
\<close>

theorem import_filters_against_prior_collection:
  assumes "toAdd (quotes s) (valid_items imported) \<noteq> []"
  shows "quotes (state_of (importFromJsonFile h (Some (JsonText (JArr imported))) s)) =
           quotes s @ filter (\<lambda>q. property q K_text \<notin> set (existingTexts (quotes s))) (valid_items imported) \<and>
         (\<forall>t. Some (JStr t) \<notin> set (existingTexts (quotes s)) \<longrightarrow>
            length (filter (\<lambda>q. property q K_text = Some (JStr t))
              (drop (length (quotes s)) (quotes (state_of (importFromJsonFile h (Some (JsonText (JArr imported))) s))))) =
            length (filter (\<lambda>q. property q K_text = Some (JStr t)) (valid_items imported)))"
proof -
  let ?new = "filter (\<lambda>q. property q K_text \<notin> set (existingTexts (quotes s))) (valid_items imported)"
  have q: "quotes (state_of (importFromJsonFile h (Some (JsonText (JArr imported))) s)) = quotes s @ ?new"
    using import_items_new [OF assms] by (simp add: toAdd_valid)
  have "filter (\<lambda>q. property q K_text = Some (JStr t)) ?new =
        filter (\<lambda>q. property q K_text = Some (JStr t)) (valid_items imported)"
    if "Some (JStr t) \<notin> set (existingTexts (quotes s))" for t
    unfolding filter_filter using that by (intro filter_cong) auto
  with q show ?thesis by simp
qed

text \<open>
  An instance: the collection holds \<open>b\<close>; the file holds \<open>a\<close> twice (once with
  surrounding blanks) and \<open>b\<close>. Both copies of \<open>a\<close> are appended.
\<close>

theorem import_filters_against_prior_collection_witness:
  "toAdd (quotes (ex_app [ex_quote ''b'' ''B''])) (valid_items [ex_item ''a'', ex_item '' a '', ex_item ''b'']) =
     [quote_object (str ''a'') [] [], quote_object (str ''a'') [] []] \<and>
   quotes (state_of (importFromJsonFile ex_host
      (Some (JsonText (JArr [ex_item ''a'', ex_item '' a '', ex_item ''b''])))
      (ex_app [ex_quote ''b'' ''B'']))) =
     [ex_quote ''b'' ''B'', quote_object (str ''a'') [] [], quote_object (str ''a'') [] []] \<and>
   length (filter (\<lambda>q. property q K_text = Some (JStr (str ''a'')))
     (drop (length (quotes (ex_app [ex_quote ''b'' ''B''])))
        (quotes (state_of (importFromJsonFile ex_host
           (Some (JsonText (JArr [ex_item ''a'', ex_item '' a '', ex_item ''b''])))
           (ex_app [ex_quote ''b'' ''B''])))))) = 2"
proof -
  let ?s = "ex_app [ex_quote ''b'' ''B'']"
  have v: "valid_items [ex_item ''a'', ex_item '' a '', ex_item ''b''] =
      [quote_object (str ''a'') [] [], quote_object (str ''a'') [] [], quote_object (str ''b'') [] []]"
    by (simp add: ex_item_def string_trim_or_empty_def trim_def str_def is_ws_def)
  have t: "toAdd (quotes ?s)
      [quote_object (str ''a'') [] [], quote_object (str ''a'') [] [], quote_object (str ''b'') [] []] =
      [quote_object (str ''a'') [] [], quote_object (str ''a'') [] []]"
    by (simp add: toAdd_def existingTexts_def ex_app_def ex_quote_def str_def)
  have f: "filter (\<lambda>q. property q K_text \<notin> set (existingTexts (quotes ?s)))
      [quote_object (str ''a'') [] [], quote_object (str ''a'') [] [], quote_object (str ''b'') [] []] =
      [quote_object (str ''a'') [] [], quote_object (str ''a'') [] []]"
    by (simp add: existingTexts_def ex_app_def ex_quote_def str_def)
  have n: "toAdd (quotes ?s) (valid_items [ex_item ''a'', ex_item '' a '', ex_item ''b'']) \<noteq> []"
    by (simp only: v t) simp
  have a: "Some (JStr (str ''a'')) \<notin> set (existingTexts (quotes ?s))"
    by (simp add: existingTexts_def ex_app_def ex_quote_def str_def)
  have k: "length (filter (\<lambda>q. property q K_text = Some (JStr (str ''a'')))
      [quote_object (str ''a'') [] [], quote_object (str ''a'') [] [], quote_object (str ''b'') [] []]) = 2"
    by (simp add: str_def)
  have q: "quotes ?s = [ex_quote ''b'' ''B'']"
    by (simp add: ex_app_def)
  note th = import_filters_against_prior_collection [OF n, of ex_host]
  from th have "quotes (state_of (importFromJsonFile ex_host
           (Some (JsonText (JArr [ex_item ''a'', ex_item '' a '', ex_item ''b'']))) ?s)) =
        quotes ?s @ filter (\<lambda>q. property q K_text \<notin> set (existingTexts (quotes ?s)))
           (valid_items [ex_item ''a'', ex_item '' a '', ex_item ''b''])"
    by (rule conjunct1)
  then have q1: "quotes (state_of (importFromJsonFile ex_host
           (Some (JsonText (JArr [ex_item ''a'', ex_item '' a '', ex_item ''b'']))) ?s)) =
        [ex_quote ''b'' ''B'', quote_object (str ''a'') [] [], quote_object (str ''a'') [] []]"
    by (simp only: v f, simp only: q append.simps)
  from th have "\<forall>t. Some (JStr t) \<notin> set (existingTexts (quotes ?s)) \<longrightarrow>
      length (filter (\<lambda>q. property q K_text = Some (JStr t))
        (drop (length (quotes ?s)) (quotes (state_of (importFromJsonFile ex_host
           (Some (JsonText (JArr [ex_item ''a'', ex_item '' a '', ex_item ''b'']))) ?s))))) =
      length (filter (\<lambda>q. property q K_text = Some (JStr t))
        (valid_items [ex_item ''a'', ex_item '' a '', ex_item ''b'']))"
    by (rule conjunct2)
  with a have "length (filter (\<lambda>q. property q K_text = Some (JStr (str ''a'')))
        (drop (length (quotes ?s)) (quotes (state_of (importFromJsonFile ex_host
           (Some (JsonText (JArr [ex_item ''a'', ex_item '' a '', ex_item ''b'']))) ?s))))) =
      length (filter (\<lambda>q. property q K_text = Some (JStr (str ''a'')))
        (valid_items [ex_item ''a'', ex_item '' a '', ex_item ''b'']))"
    by blast
  then have q2: "length (filter (\<lambda>q. property q K_text = Some (JStr (str ''a'')))
        (drop (length (quotes ?s)) (quotes (state_of (importFromJsonFile ex_host
           (Some (JsonText (JArr [ex_item ''a'', ex_item '' a '', ex_item ''b'']))) ?s))))) = 2"
    by (simp only: v k)
  have t': "toAdd (quotes ?s) (valid_items [ex_item ''a'', ex_item '' a '', ex_item ''b'']) =
      [quote_object (str ''a'') [] [], quote_object (str ''a'') [] []]"
    by (simp only: v t)
  from t' q1 q2 show ?thesis
    by (intro conjI)
qed

text \<open>
  Claim C5. Importing a file, and then importing the same file again while declining
  to append duplicates, leaves the collection after the second import equal to the
  collection after the first (whatever the file holds, and whatever the first import
  was answered).
\<close>

theorem second_import_declined_changes_nothing:
  assumes "\<not> confirm h2"
  shows "quotes (state_of (importFromJsonFile h2 f (state_of (importFromJsonFile h1 f s)))) =
         quotes (state_of (importFromJsonFile h1 f s))"
proof (cases "\<exists>imported. f = Some (JsonText (JArr imported))")
  case True
  then obtain imported where f: "f = Some (JsonText (JArr imported))" by blast
  let ?s1 = "import_items h1 imported s"
  have "toAdd (quotes ?s1) (valid_items imported) = []"
  proof (cases "toAdd (quotes s) (valid_items imported) = []")
    case True
    with quotes_import_items [of h1 imported s] show ?thesis
      by (auto simp: toAdd_after_append_all)
  next
    case False
    from import_items_new [OF False, of h1] show ?thesis
      by (simp add: toAdd_after_append_new)
  qed
  then have "quotes (import_items h2 imported ?s1) = quotes ?s1"
    using import_items_declined_dup [OF assms] by blast
  then show ?thesis by (simp add: f)
next
  case False
  then have *: "quotes (state_of (importFromJsonFile h f s')) = quotes s'" for h s'
    by (cases "(h, f, s')" rule: importFromJsonFile.cases) auto
  show ?thesis by (simp add: *)
qed

text \<open>
  An instance: the collection holds \<open>a\<close>, the file holds \<open>a\<close> and \<open>b\<close>. The first
  import appends \<open>b\<close>; the second, declined, leaves the two quotes.
\<close>

theorem second_import_declined_changes_nothing_witness:
  "\<not> confirm (ex_host\<lparr>confirm := False\<rparr>) \<and>
   quotes (state_of (importFromJsonFile ex_host (Some (JsonText (JArr [ex_item ''a'', ex_item ''b''])))
      (ex_app [ex_quote ''a'' ''A'']))) = [ex_quote ''a'' ''A'', quote_object (str ''b'') [] []] \<and>
   quotes (state_of (importFromJsonFile (ex_host\<lparr>confirm := False\<rparr>)
      (Some (JsonText (JArr [ex_item ''a'', ex_item ''b''])))
      (state_of (importFromJsonFile ex_host (Some (JsonText (JArr [ex_item ''a'', ex_item ''b''])))
         (ex_app [ex_quote ''a'' ''A'']))))) = [ex_quote ''a'' ''A'', quote_object (str ''b'') [] []]"
proof -
  have d: "\<not> confirm (ex_host\<lparr>confirm := False\<rparr>)"
    by simp
  have q: "quotes (state_of (importFromJsonFile ex_host (Some (JsonText (JArr [ex_item ''a'', ex_item ''b''])))
      (ex_app [ex_quote ''a'' ''A'']))) = [ex_quote ''a'' ''A'', quote_object (str ''b'') [] []]"
    by (simp add: import_items_def import_failed_def saveQuotes_def toAdd_def existingTexts_def Let_def
          ex_item_def ex_quote_def ex_app_def ex_host_def string_trim_or_empty_def trim_def str_def is_ws_def)
  from second_import_declined_changes_nothing [OF d,
      of "Some (JsonText (JArr [ex_item ''a'', ex_item ''b'']))" ex_host "ex_app [ex_quote ''a'' ''A'']"] q d
  show ?thesis by simp
qed

section \<open>Export and re-import\<close>

lemma valid_items_Quotes:
  "\<forall>q\<in>set qs. is_Quote q \<Longrightarrow> map fields (valid_items qs) = map fields qs"
proof (induction qs)
  case Nil
  then show ?case by simp
next
  case (Cons q qs)
  then have q: "is_Quote q" by simp
  then obtain t where t: "property q K_text = Some (JStr t)" "t \<noteq> []" "trim t = t"
    by (auto simp: is_Quote_def split: option.splits json.splits)
  then have tr: "truthy q" by (cases q) auto
  have a: "string_trim_or_empty (property q K_author) = str_of (property q K_author)"
    using q by (auto simp: is_Quote_def string_trim_or_empty_def split: option.splits json.splits)
  have c: "string_trim_or_empty (property q K_category) = str_of (property q K_category)"
    using q by (auto simp: is_Quote_def string_trim_or_empty_def split: option.splits json.splits)
  from Cons t tr a c show ?case by (simp add: fields_def)
qed

lemma valid_items_Nil_iff: "\<forall>q\<in>set qs. is_Quote q \<Longrightarrow> valid_items qs = [] \<longleftrightarrow> qs = []"
  using valid_items_Quotes [of qs] by (metis map_is_Nil_conv)

subsection \<open>Collections of Quotes\<close>

text \<open>
  The collections the script builds by itself consist of Quotes: the defaults do, and
  adding, importing and clearing keep it so.
\<close>

lemma trim_or_empty_trimmed: "trim_or_empty x = Inr a \<Longrightarrow> trim a = a"
  by (cases x rule: trim_or_empty.cases) (auto simp: trim_idem split: if_splits)

lemma string_trim_or_empty_trimmed: "trim (string_trim_or_empty x) = string_trim_or_empty x"
  by (simp add: string_trim_or_empty_def trim_idem)

lemma is_Quote_quote_object:
  "trim t \<noteq> [] \<Longrightarrow> trim a = a \<Longrightarrow> trim c = c \<Longrightarrow> is_Quote (quote_object (trim t) a c)"
  by (simp add: is_Quote_def trim_idem)

lemma valid_items_Quote: "q \<in> set (valid_items xs) \<Longrightarrow> is_Quote q"
  by (induction xs) (auto simp: is_Quote_quote_object string_trim_or_empty_trimmed split: if_splits)

lemma is_Quote_string_category: "is_Quote q \<Longrightarrow> string_category q"
  by (auto simp: is_Quote_def string_category_def split: option.splits json.splits)

lemma quotes_addQuote_trimmed:
  "quotes (state_of (addQuote h c s)) = quotes s \<or>
   (\<exists>a b. trim (str_of (c_text c)) \<noteq> [] \<and> trim a = a \<and> trim b = b \<and>
      quotes (state_of (addQuote h c s)) = quotes s @ [quote_object (trim (str_of (c_text c))) a b])"
proof (cases "trim_or_empty (c_author c)")
  case (Inl e)
  then show ?thesis by (simp add: addQuote_def)
next
  case (Inr a)
  note a = this
  show ?thesis
  proof (cases "trim_or_empty (c_category c)")
    case (Inl e)
    with a show ?thesis by (simp add: addQuote_def)
  next
    case (Inr b)
    from trim_or_empty_trimmed [OF a] trim_or_empty_trimmed [OF Inr] show ?thesis
      by (auto simp: addQuote_def Let_def session_setItem_def a Inr)
  qed
qed

lemma addQuote_Quotes:
  assumes "\<forall>q\<in>set (quotes s). is_Quote q"
  shows "\<forall>q\<in>set (quotes (state_of (addQuote h c s))). is_Quote q"
  using quotes_addQuote_trimmed [of h c s] assms
  by (auto simp: is_Quote_quote_object)

lemma importFromJsonFile_Quotes:
  assumes "\<forall>q\<in>set (quotes s). is_Quote q"
  shows "\<forall>q\<in>set (quotes (state_of (importFromJsonFile h f s))). is_Quote q"
proof (cases "\<exists>imported. f = Some (JsonText (JArr imported))")
  case True
  then obtain imported where f: "f = Some (JsonText (JArr imported))" by blast
  from quotes_import_items [of h imported s] assms show ?thesis
    unfolding f using valid_items_Quote set_toAdd by (auto; blast)
next
  case False
  then have "quotes (state_of (importFromJsonFile h f s)) = quotes s"
    by (cases "(h, f, s)" rule: importFromJsonFile.cases) (auto simp: import_failed_def)
  with assms show ?thesis by simp
qed

lemma DEFAULT_QUOTES_Quotes: "\<forall>q\<in>set DEFAULT_QUOTES. is_Quote q"
  by (simp add: DEFAULT_QUOTES_def is_Quote_def trim_def str_def is_ws_def)

lemma reachable_Quotes:
  assumes "reachable raw s" and "\<forall>q\<in>set (loadQuotes raw). is_Quote q"
  shows "\<forall>q\<in>set (quotes s). is_Quote q"
  using assms
proof (induction rule: reachable.induct)
  case (r_load s)
  then show ?case by simp
next
  case (r_add s h c)
  then show ?case by (simp add: addQuote_Quotes)
next
  case (r_import s h f)
  then show ?case by (simp add: importFromJsonFile_Quotes)
next
  case (r_clear s h)
  with quotes_clearAllQuotes [of h s] show ?case by auto
qed

text \<open>
  Claim C4, as the code has it. For a collection of Quotes, the exported file imported into a page whose
  collection is empty gives a collection with the same \<open>{text, author, category}\<close>
  records, in the same order and so with the same multiset: nothing is filtered,
  because the empty collection has no texts, and duplicates stay. (By
  \<open>reachable_Quotes\<close> every collection reached from the defaults, or from stored
  Quotes, is a collection of Quotes.)
\<close>

theorem export_import_roundtrip:
  assumes "\<forall>q\<in>set (quotes s). is_Quote q" and "quotes e = []"
  shows "map fields (quotes (state_of (importFromJsonFile h (Some (exportToJson s)) e))) = map fields (quotes s) \<and>
         mset (map fields (quotes (state_of (importFromJsonFile h (Some (exportToJson s)) e)))) =
         mset (map fields (quotes s))"
proof (cases "quotes s = []")
  case True
  with assms show ?thesis
    by (simp add: exportToJson_def import_items_def)
next
  case False
  with assms(1) have v: "valid_items (quotes s) \<noteq> []"
    by (simp add: valid_items_Nil_iff)
  then have "toAdd (quotes e) (valid_items (quotes s)) \<noteq> []"
    by (simp add: assms(2) toAdd_empty_store)
  from import_items_new [OF this, of h] assms
  have "quotes (import_items h (quotes s) e) = valid_items (quotes s)"
    by (simp add: toAdd_empty_store)
  with valid_items_Quotes [OF assms(1)] show ?thesis
    by (simp add: exportToJson_def)
qed

text \<open>
  An instance: a collection with the same quote twice and a quote without a category.
\<close>

theorem export_import_roundtrip_witness:
  "list_all is_Quote (quotes (ex_app [ex_quote ''a'' ''A'', ex_quote ''a'' ''A'', ex_item ''b''])) \<and>
   quotes (ex_app []) = [] \<and>
   map fields (quotes (state_of (importFromJsonFile ex_host
      (Some (exportToJson (ex_app [ex_quote ''a'' ''A'', ex_quote ''a'' ''A'', ex_item ''b''])))
      (ex_app [])))) =
     [(str ''a'', [], str ''A''), (str ''a'', [], str ''A''), (str ''b'', [], [])]"
proof -
  let ?s = "ex_app [ex_quote ''a'' ''A'', ex_quote ''a'' ''A'', ex_item ''b'']"
  have w: "list_all is_Quote (quotes ?s)"
    by (simp add: is_Quote_def ex_app_def ex_quote_def ex_item_def trim_def str_def is_ws_def)
  then have a: "\<forall>q\<in>set (quotes ?s). is_Quote q"
    by (simp only: list_all_iff)
  have e: "quotes (ex_app []) = []"
    by (simp add: ex_app_def)
  have f: "map fields (quotes ?s) = [(str ''a'', [], str ''A''), (str ''a'', [], str ''A''), (str ''b'', [], [])]"
    by (simp add: fields_def ex_app_def ex_quote_def ex_item_def)
  from export_import_roundtrip [OF a e, of ex_host] w e show ?thesis
    by (simp only: f)
qed

text \<open>
  Claim C4 as stated, for every collection, fails: a stored quote whose text has
  surrounding blanks is loaded as it is (see C1), and the import trims it.
\<close>

theorem export_import_untrimmed_counterexample:
  "reachable (Some (JsonText (JArr [quote_object (str '' a '') [] []]))) (ex_app [quote_object (str '' a '') [] []]) \<and>
   map fields (quotes (ex_app [quote_object (str '' a '') [] []])) = [(str '' a '', [], [])] \<and>
   map fields (quotes (state_of (importFromJsonFile ex_host
      (Some (exportToJson (ex_app [quote_object (str '' a '') [] []]))) (ex_app [])))) = [(str ''a'', [], [])] \<and>
   mset (map fields (quotes (state_of (importFromJsonFile ex_host
      (Some (exportToJson (ex_app [quote_object (str '' a '') [] []]))) (ex_app [])))))
     \<noteq> mset (map fields (quotes (ex_app [quote_object (str '' a '') [] []])))"
proof -
  let ?q = "quote_object (str '' a '') [] []"
  have l: "loadQuotes (Some (JsonText (JArr [?q]))) = [?q]"
    by simp
  have r: "reachable (Some (JsonText (JArr [?q]))) (ex_app [?q])"
    by (rule r_load) (simp only: l, simp add: ex_app_def)
  have a: "map fields (quotes (ex_app [?q])) = [(str '' a '', [], [])]"
    by (simp add: fields_def ex_app_def)
  have b: "map fields (quotes (state_of (importFromJsonFile ex_host (Some (exportToJson (ex_app [?q]))) (ex_app [])))) =
      [(str ''a'', [], [])]"
    by (simp add: exportToJson_def import_items_def import_failed_def saveQuotes_def toAdd_def existingTexts_def
          Let_def fields_def ex_app_def ex_host_def string_trim_or_empty_def trim_def str_def is_ws_def)
  have c: "mset [(str ''a'', [], [])] \<noteq> mset [(str '' a '', ([]::jsstring), ([]::jsstring))]"
    by (simp add: str_def)
  from r a b c show ?thesis
    by (simp only: a b) simp
qed

section \<open>Categories\<close>

lemma set_first_occurrences [simp]: "set (first_occurrences xs) = set xs"
  by (induction xs rule: first_occurrences.induct) auto

lemma distinct_first_occurrences [simp]: "distinct (first_occurrences xs)"
  by (induction xs rule: first_occurrences.induct) auto

lemma foldl_set_add_strings:
  "foldl set_add acc (map JStr xs) =
     acc @ map JStr (first_occurrences (filter (\<lambda>x. JStr x \<notin> set acc) xs))"
proof (induction xs arbitrary: acc)
  case Nil
  then show ?case by simp
next
  case (Cons x xs)
  show ?case
  proof (cases "JStr x \<in> set acc")
    case True
    then have "set_add acc (JStr x) = acc" by (simp add: set_add_def array_includes_string)
    with True show ?thesis by (simp add: Cons.IH)
  next
    case False
    have "filter (\<lambda>y. JStr y \<notin> set (acc @ [JStr x])) xs =
          filter (\<lambda>y. y \<noteq> x) (filter (\<lambda>y. JStr y \<notin> set acc) xs)"
      by (auto intro: filter_cong)
    moreover from False have "set_add acc (JStr x) = acc @ [JStr x]"
      by (simp add: set_add_def array_includes_string)
    ultimately show ?thesis using False
      by (simp add: Cons.IH [of "acc @ [JStr x]"])
  qed
qed

lemma new_Set_strings: "new_Set (map JStr xs) = map JStr (first_occurrences xs)"
  by (simp add: new_Set_def foldl_set_add_strings)

lemma truthy_values_strings:
  "\<forall>q\<in>set qs. string_category q \<Longrightarrow>
   truthy_values (map (\<lambda>q. property q K_category) qs) =
     map JStr (filter (\<lambda>c. c \<noteq> []) (map (\<lambda>q. str_of (property q K_category)) qs))"
  by (induction qs) (auto simp: string_category_def split: option.splits json.splits)

lemma str_of_category:
  "string_category q \<Longrightarrow> c \<noteq> [] \<Longrightarrow>
   (str_of (property q K_category) = c) = (property q K_category = Some (JStr c))"
  by (auto simp: string_category_def split: option.splits json.splits)

lemma truthy_values_truthy: "c \<in> set (truthy_values xs) \<Longrightarrow> truthy c"
  by (induction xs rule: truthy_values.induct) (auto split: if_splits)

lemma set_foldl_set_add: "set (foldl set_add acc xs) \<subseteq> set acc \<union> set xs"
proof (induction xs arbitrary: acc)
  case Nil
  then show ?case by simp
next
  case (Cons a xs)
  have "set (set_add acc a) \<subseteq> set acc \<union> {a}" by (auto simp: set_add_def)
  with Cons [of "set_add acc a"] show ?case by auto
qed

lemma categories_truthy: "c \<in> set (categories qs) \<Longrightarrow> truthy c"
  using set_foldl_set_add [of "[]" "truthy_values (map (\<lambda>q. property q K_category) qs)"]
  by (auto simp: categories_def new_Set_def dest: truthy_values_truthy)

lemma same_value_zero_eq: "same_value_zero a b \<Longrightarrow> a = b"
  by (cases a) auto

lemma set_set_add: "set (set_add acc x) = insert x (set acc)"
  by (auto simp: set_add_def array_includes_def list_ex_iff dest: same_value_zero_eq)

lemma set_foldl_set_add_eq: "set (foldl set_add acc xs) = set acc \<union> set xs"
  by (induction xs arbitrary: acc) (auto simp: set_set_add)

lemma set_truthy_values: "set (truthy_values xs) = {c. truthy c \<and> Some c \<in> set xs}"
  by (induction xs rule: truthy_values.induct) auto

lemma set_categories:
  "set (categories qs) = {c. truthy c \<and> (\<exists>q\<in>set qs. property q K_category = Some c)}"
  by (auto simp: categories_def new_Set_def set_foldl_set_add_eq set_truthy_values image_iff)
     (metis)

lemma categories_strings:
  assumes "\<forall>q\<in>set qs. string_category q"
  shows "categories qs = map JStr (listCategories_spec qs) \<and>
         distinct (categories qs) \<and>
         set (categories qs) = {JStr c | c. c \<noteq> [] \<and> (\<exists>q\<in>set qs. property q K_category = Some (JStr c))}"
proof -
  have eq: "categories qs = map JStr (listCategories_spec qs)"
    by (simp add: categories_def listCategories_spec_def truthy_values_strings [OF assms] new_Set_strings)
  have d: "distinct (map JStr (listCategories_spec qs))"
    by (simp add: distinct_map listCategories_spec_def inj_on_def)
  have "set (listCategories_spec qs) = {c. c \<noteq> [] \<and> (\<exists>q\<in>set qs. property q K_category = Some (JStr c))}"
  proof (intro set_eqI iffI)
    fix c assume "c \<in> set (listCategories_spec qs)"
    then obtain q where "q \<in> set qs" "str_of (property q K_category) = c" "c \<noteq> []"
      by (auto simp: listCategories_spec_def)
    with assms str_of_category [of q c] show
      "c \<in> {c. c \<noteq> [] \<and> (\<exists>q\<in>set qs. property q K_category = Some (JStr c))}"
      by blast
  next
    fix c assume "c \<in> {c. c \<noteq> [] \<and> (\<exists>q\<in>set qs. property q K_category = Some (JStr c))}"
    then obtain q where "q \<in> set qs" "property q K_category = Some (JStr c)" "c \<noteq> []"
      by blast
    then have "c \<in> (\<lambda>q. str_of (property q K_category)) ` set qs"
      by force
    with \<open>c \<noteq> []\<close> show "c \<in> set (listCategories_spec qs)"
      by (simp add: listCategories_spec_def)
  qed
  then have "set (map JStr (listCategories_spec qs)) =
      {JStr c | c. c \<noteq> [] \<and> (\<exists>q\<in>set qs. property q K_category = Some (JStr c))}"
    by auto
  with eq d show ?thesis by simp
qed

text \<open>
  Claim C7. The categories computed by \<open>populateCategories\<close> are the truthy
  \<open>category\<close> values of the collection. For a collection whose categories are
  strings (or absent), as in every collection of Quotes, they are the specification's
  \<open>listCategories\<close>: each non-empty category of the collection exactly once, in the
  order of first occurrence.
\<close>

theorem categories_distinct_in_first_occurrence_order:
  "set (categories qs) = {c. truthy c \<and> (\<exists>q\<in>set qs. property q K_category = Some c)} \<and>
   ((\<forall>q\<in>set qs. string_category q) \<longrightarrow>
      categories qs = map JStr (listCategories_spec qs) \<and>
      distinct (categories qs) \<and>
      set (categories qs) = {JStr c | c. c \<noteq> [] \<and> (\<exists>q\<in>set qs. property q K_category = Some (JStr c))})"
  using set_categories [of qs] categories_strings [of qs] by blast

text \<open>An instance: quotes with the categories A, B, A and the empty category give A, B.\<close>

theorem categories_distinct_in_first_occurrence_order_witness:
  "list_all string_category [ex_quote ''p'' ''A'', ex_quote ''q'' ''B'', ex_quote ''r'' ''A'', ex_quote ''s'' []] \<and>
   listCategories_spec [ex_quote ''p'' ''A'', ex_quote ''q'' ''B'', ex_quote ''r'' ''A'', ex_quote ''s'' []] =
     [str ''A'', str ''B''] \<and>
   categories [ex_quote ''p'' ''A'', ex_quote ''q'' ''B'', ex_quote ''r'' ''A'', ex_quote ''s'' []] =
     [JStr (str ''A''), JStr (str ''B'')]"
proof -
  let ?qs = "[ex_quote ''p'' ''A'', ex_quote ''q'' ''B'', ex_quote ''r'' ''A'', ex_quote ''s'' []]"
  have w: "list_all string_category ?qs"
    by (simp add: string_category_def ex_quote_def)
  then have a: "\<forall>q\<in>set ?qs. string_category q"
    by (simp only: list_all_iff)
  have l: "listCategories_spec ?qs = [str ''A'', str ''B'']"
    by (simp add: listCategories_spec_def ex_quote_def str_def)
  from categories_distinct_in_first_occurrence_order [of ?qs] a
  have "categories ?qs = map JStr (listCategories_spec ?qs)"
    by blast
  with w l show ?thesis
    by (simp only: l) simp
qed

text \<open>
  Claim C8. After \<open>populateCategories\<close> on a page that has the category select, the
  select's value is the stored selected category when that value is among the current
  categories of the collection, and \<open>all\<close> in every other case (no stored value, or a
  stored value that is not a current category).
\<close>

theorem populateCategories_restores_saved_category:
  assumes "categoryFilter s = Some el0"
  shows "map_option sel_value (categoryFilter (state_of (populateCategories h s))) =
         Some (case localSelected s of
                 None \<Rightarrow> K_all
               | Some saved \<Rightarrow> if JStr saved \<in> set (categories (quotes s)) then saved else K_all)"
proof (cases "localSelected s")
  case None
  with assms show ?thesis by (simp add: populateCategories_def Let_def)
next
  case (Some saved)
  have "saved \<noteq> []" if "JStr saved \<in> set (categories (quotes s))"
    using categories_truthy [OF that] by simp
  with assms Some show ?thesis
    by (auto simp: populateCategories_def Let_def array_includes_string set_value_def)
qed

text \<open>
  Three instances. With the stored category B, a collection that still has a quote of
  category B restores B, and a collection that has only category A falls back to
  \<open>all\<close>; without a stored category the value is \<open>all\<close>.
\<close>

theorem populateCategories_restores_saved_category_witness:
  "categoryFilter ((ex_app [ex_quote ''p'' ''A'', ex_quote ''q'' ''B''])\<lparr>localSelected := Some (str ''B'')\<rparr>) =
     Some \<lparr>option_values = [JStr K_all], sel_value = K_all\<rparr> \<and>
   map_option sel_value (categoryFilter (state_of (populateCategories ex_host
     ((ex_app [ex_quote ''p'' ''A'', ex_quote ''q'' ''B''])\<lparr>localSelected := Some (str ''B'')\<rparr>)))) =
     Some (str ''B'') \<and>
   map_option sel_value (categoryFilter (state_of (populateCategories ex_host
     ((ex_app [ex_quote ''p'' ''A''])\<lparr>localSelected := Some (str ''B'')\<rparr>)))) =
     Some K_all \<and>
   map_option sel_value (categoryFilter (state_of (populateCategories ex_host
     (ex_app [ex_quote ''p'' ''A''])))) = Some K_all"
proof -
  let ?el = "\<lparr>option_values = [JStr K_all], sel_value = K_all\<rparr>"
  let ?s1 = "(ex_app [ex_quote ''p'' ''A'', ex_quote ''q'' ''B''])\<lparr>localSelected := Some (str ''B'')\<rparr>"
  let ?s2 = "(ex_app [ex_quote ''p'' ''A''])\<lparr>localSelected := Some (str ''B'')\<rparr>"
  let ?s3 = "ex_app [ex_quote ''p'' ''A'']"
  have c1: "categoryFilter ?s1 = Some ?el" and c2: "categoryFilter ?s2 = Some ?el"
    and c3: "categoryFilter ?s3 = Some ?el"
    by (simp_all add: ex_app_def)
  have k1: "categories (quotes ?s1) = [JStr (str ''A''), JStr (str ''B'')]"
    by (simp add: categories_def new_Set_def set_add_def array_includes_def ex_app_def ex_quote_def str_def)
  have k2: "categories (quotes ?s2) = [JStr (str ''A'')]"
    by (simp add: categories_def new_Set_def set_add_def array_includes_def ex_app_def ex_quote_def str_def)
  have l: "localSelected ?s1 = Some (str ''B'')" "localSelected ?s2 = Some (str ''B'')"
    by simp_all
  have l3: "localSelected ?s3 = None"
    by (simp add: ex_app_def)
  from populateCategories_restores_saved_category [OF c1, of ex_host]
  have r1: "map_option sel_value (categoryFilter (state_of (populateCategories ex_host ?s1))) = Some (str ''B'')"
    by (simp only: k1 l) (simp add: str_def)
  from populateCategories_restores_saved_category [OF c2, of ex_host]
  have r2: "map_option sel_value (categoryFilter (state_of (populateCategories ex_host ?s2))) = Some K_all"
    by (simp only: k2 l) (simp add: str_def)
  from populateCategories_restores_saved_category [OF c3, of ex_host]
  have r3: "map_option sel_value (categoryFilter (state_of (populateCategories ex_host ?s3))) = Some K_all"
    by (simp only: l3 option.case)
  from c1 r1 r2 r3 show ?thesis
    by (intro conjI)
qed

section \<open>Selecting a quote\<close>

text \<open>
  When the write of the selected category is taken (or stores the value the key holds
  already) and \<open>Math.random\<close> stays below 1: an empty pool makes \<open>filterQuotes\<close>
  return with the message that no quote was found, and otherwise the quote shown is an
  element of the pool. The pool is the whole collection for \<open>all\<close> and the quotes
  whose \<open>category\<close> is exactly the selected string otherwise (\<open>filtered\<close>).
\<close>

lemma filterQuotes_pool:
  assumes "categoryFilter s = Some el"
      and "\<not> local_rejects h \<or> localSelected s = Some (sel_value el)"
      and "\<forall>n>0. random_floor h n < n"
  shows "(filtered (sel_value el) (quotes s) = [] \<longrightarrow>
            filterQuotes h s =
              Returned (s\<lparr>localSelected := Some (sel_value el), quoteDisplay := NoQuotesFound (sel_value el)\<rparr>)) \<and>
         (filtered (sel_value el) (quotes s) \<noteq> [] \<longrightarrow>
            (\<exists>q \<in> set (filtered (sel_value el) (quotes s)).
               quoteDisplay (state_of (filterQuotes h s)) = QuoteShown q))"
proof -
  let ?pool = "filtered (sel_value el) (quotes s)"
  have w: "selected_setItem h (sel_value el) s = Returned (s\<lparr>localSelected := Some (sel_value el)\<rparr>)"
    using assms(2) by (auto simp: selected_setItem_def)
  have e: "?pool = [] \<Longrightarrow> filterQuotes h s =
      Returned (s\<lparr>localSelected := Some (sel_value el), quoteDisplay := NoQuotesFound (sel_value el)\<rparr>)"
    using assms(1) by (simp add: filterQuotes_def Let_def w)
  have n: "\<exists>q \<in> set ?pool. quoteDisplay (state_of (filterQuotes h s)) = QuoteShown q" if "?pool \<noteq> []"
  proof -
    from that assms(3) have i: "random_floor h (length ?pool) < length ?pool" by simp
    then have "quoteDisplay (state_of (filterQuotes h s)) = QuoteShown (?pool ! random_floor h (length ?pool))"
      using assms(1) that by (simp add: filterQuotes_def Let_def w session_setItem_def)
    with i show ?thesis by (metis nth_mem)
  qed
  from e n show ?thesis by simp
qed

text \<open>
  When \<open>localStorage\<close> refuses the write, \<open>filterQuotes\<close> throws before it looks at
  the quotes: the \<open>setItem\<close> of the selected category is not inside a \<open>try\<close>, unlike
  the one of \<open>saveQuotes\<close>.
\<close>

lemma filterQuotes_refused_write:
  assumes "categoryFilter s = Some el" and "local_rejects h" and "localSelected s \<noteq> Some (sel_value el)"
  shows "filterQuotes h s = Threw QuotaExceededError s"
  using assms by (simp add: filterQuotes_def Let_def selected_setItem_def)


section \<open>A failing write of the collection\<close>

lemma populateCategories_local_rejects:
  "populateCategories (h\<lparr>local_rejects := b\<rparr>) s = populateCategories h s"
  by (auto simp: populateCategories_def Let_def filterQuotes_def selected_setItem_def set_value_def
        array_includes_string session_setItem_def split: option.splits)

lemma populateCategories_frame:
  "populateCategories h (s\<lparr>localQuotes := a, console := b\<rparr>) =
   map_outcome (\<lambda>s. s\<lparr>localQuotes := a, console := b\<rparr>) (populateCategories h s)"
  by (auto simp: populateCategories_def filterQuotes_def Let_def selected_setItem_def session_setItem_def
        split: option.splits)

lemma forget_update [simp]:
  "forget_durable (s\<lparr>localQuotes := a, console := b\<rparr>) = forget_durable s"
  "forget_durable (s\<lparr>console := b\<rparr>) = forget_durable s"
  "forget_durable (s\<lparr>localQuotes := a\<rparr>) = forget_durable s"
  by (simp_all add: forget_durable_def)

lemma quotes_forget: "forget_durable s = forget_durable t \<Longrightarrow> quotes s = quotes t"
  by (cases s; cases t) (simp add: forget_durable_def)

lemma populateCategories_forget:
  assumes "forget_durable s = forget_durable t"
  shows "forget_durable (state_of (populateCategories h s)) = forget_durable (state_of (populateCategories h t))"
    and "returns (populateCategories h s) = returns (populateCategories h t)"
proof -
  from assms have "s = t\<lparr>localQuotes := localQuotes s, console := console s\<rparr>"
    by (cases s; cases t) (simp add: forget_durable_def)
  then obtain a b where s: "s = t\<lparr>localQuotes := a, console := b\<rparr>" by blast
  show "forget_durable (state_of (populateCategories h s)) = forget_durable (state_of (populateCategories h t))"
    unfolding s populateCategories_frame by simp
  show "returns (populateCategories h s) = returns (populateCategories h t)"
    unfolding s populateCategories_frame by simp
qed

lemma returns_importFromJsonFile: "returns (importFromJsonFile h f s)"
  by (cases "(h, f, s)" rule: importFromJsonFile.cases) simp_all

lemma returns_populateCategories_no_quotes: "quotes s = [] \<Longrightarrow> returns (populateCategories h s)"
  by (simp add: populateCategories_def Let_def categories_def new_Set_def array_includes_def
        split: option.splits)

lemma returns_clearAllQuotes: "returns (clearAllQuotes h s)"
  by (simp add: clearAllQuotes_def Let_def returns_populateCategories_no_quotes)

lemma returns_populateCategories:
  assumes "\<not> session_rejects h" "\<forall>n>0. random_floor h n < n"
  shows "returns (populateCategories h s)"
  using assms
  by (auto simp: populateCategories_def Let_def filterQuotes_def selected_setItem_def set_value_def
        array_includes_string session_setItem_def split: option.splits)

lemma trim_or_empty_string:
  "x = None \<or> typeof_string x \<Longrightarrow> \<exists>a. trim_or_empty x = Inr a"
  by (cases x rule: trim_or_empty.cases) auto

lemma returns_addQuote:
  assumes "\<not> session_rejects h" "\<forall>n>0. random_floor h n < n"
    and "c_author c = None \<or> typeof_string (c_author c)"
    and "c_category c = None \<or> typeof_string (c_category c)"
  shows "returns (addQuote h c s)"
proof -
  from trim_or_empty_string [OF assms(3)] obtain a where a: "trim_or_empty (c_author c) = Inr a" ..
  from trim_or_empty_string [OF assms(4)] obtain b where b: "trim_or_empty (c_category c) = Inr b" ..
  show ?thesis
    using assms(1) returns_populateCategories [OF assms(1,2)]
    by (simp add: addQuote_def Let_def a b session_setItem_def)
qed

lemma import_items_forget:
  "forget_durable (import_items (h\<lparr>local_rejects := b\<rparr>) imported s) =
   forget_durable (import_items h imported s)"
  by (simp add: import_items_def Let_def saveQuotes_def import_failed_def forget_durable_def)

lemma importFromJsonFile_forget:
  "forget_durable (state_of (importFromJsonFile (h\<lparr>local_rejects := b\<rparr>) f s)) =
   forget_durable (state_of (importFromJsonFile h f s))"
  by (cases "(h, f, s)" rule: importFromJsonFile.cases) (simp_all add: import_items_forget)

lemma clearAllQuotes_forget:
  "forget_durable (state_of (clearAllQuotes (h\<lparr>local_rejects := b\<rparr>) s)) =
   forget_durable (state_of (clearAllQuotes h s))"
proof (cases "confirm h")
  case False
  then show ?thesis by (simp add: clearAllQuotes_def)
next
  case True
  have "forget_durable (saveQuotes (h\<lparr>local_rejects := b\<rparr>) [] (s\<lparr>quotes := []\<rparr>)\<lparr>quoteDisplay := AllQuotesDeleted\<rparr>) =
        forget_durable (saveQuotes h [] (s\<lparr>quotes := []\<rparr>)\<lparr>quoteDisplay := AllQuotesDeleted\<rparr>)"
    by (simp add: saveQuotes_def forget_durable_def)
  from populateCategories_forget(1) [OF this, of h] True show ?thesis
    by (simp add: clearAllQuotes_def Let_def populateCategories_local_rejects)
qed

lemma addQuote_forget:
  "forget_durable (state_of (addQuote (h\<lparr>local_rejects := b\<rparr>) c s)) =
   forget_durable (state_of (addQuote h c s)) \<and>
   returns (addQuote (h\<lparr>local_rejects := b\<rparr>) c s) = returns (addQuote h c s)"
proof -
  have *: "forget_durable (state_of (populateCategories h
             (saveQuotes (h\<lparr>local_rejects := b\<rparr>) qs (s\<lparr>quotes := qs\<rparr>)
                \<lparr>quoteDisplay := d, sessionLast := l, alerts := al\<rparr>))) =
           forget_durable (state_of (populateCategories h
             (saveQuotes h qs (s\<lparr>quotes := qs\<rparr>)\<lparr>quoteDisplay := d, sessionLast := l, alerts := al\<rparr>))) \<and>
           returns (populateCategories h
             (saveQuotes (h\<lparr>local_rejects := b\<rparr>) qs (s\<lparr>quotes := qs\<rparr>)
                \<lparr>quoteDisplay := d, sessionLast := l, alerts := al\<rparr>)) =
           returns (populateCategories h
             (saveQuotes h qs (s\<lparr>quotes := qs\<rparr>)\<lparr>quoteDisplay := d, sessionLast := l, alerts := al\<rparr>))"
    for qs d l al
    by (intro conjI populateCategories_forget) (simp_all add: saveQuotes_def forget_durable_def)
  show ?thesis
    by (cases "session_rejects h")
       (auto simp: addQuote_def Let_def session_setItem_def populateCategories_local_rejects *
             split: sum.splits,
        auto simp: saveQuotes_def forget_durable_def)
qed

lemma local_rejects_True: "local_rejects h \<Longrightarrow> h\<lparr>local_rejects := True\<rparr> = h"
  by (cases h) simp

text \<open>
  When \<open>localStorage\<close> refuses the write of the collection, \<open>saveQuotes\<close> only logs
  the error on the console. The import and \<open>clearAllQuotes\<close> return to their caller;
  \<open>addQuote\<close> throws only when it would also throw with a store that accepts the
  write, and it returns when the session store takes the new quote, the author and the
  category are strings or absent, and \<open>Math.random\<close> stays below 1. In each of the
  three operations the collection, and all of the state but the stored collection and
  the console, are what the operation gives when the write is accepted.
\<close>

lemma save_failure_absorbed:
  assumes "local_rejects h"
  shows "saveQuotes h qs s = s\<lparr>console := console s @ [SaveError]\<rparr> \<and>
         returns (importFromJsonFile h f s) \<and>
         returns (clearAllQuotes h s) \<and>
         returns (addQuote h c s) = returns (addQuote (h\<lparr>local_rejects := False\<rparr>) c s) \<and>
         (\<not> session_rejects h \<and> (\<forall>n>0. random_floor h n < n) \<and>
          (c_author c = None \<or> typeof_string (c_author c)) \<and>
          (c_category c = None \<or> typeof_string (c_category c)) \<longrightarrow> returns (addQuote h c s)) \<and>
         quotes (state_of (importFromJsonFile h f s)) =
           quotes (state_of (importFromJsonFile (h\<lparr>local_rejects := False\<rparr>) f s)) \<and>
         quotes (state_of (clearAllQuotes h s)) =
           quotes (state_of (clearAllQuotes (h\<lparr>local_rejects := False\<rparr>) s)) \<and>
         quotes (state_of (addQuote h c s)) =
           quotes (state_of (addQuote (h\<lparr>local_rejects := False\<rparr>) c s)) \<and>
         forget_durable (state_of (importFromJsonFile h f s)) =
           forget_durable (state_of (importFromJsonFile (h\<lparr>local_rejects := False\<rparr>) f s)) \<and>
         forget_durable (state_of (clearAllQuotes h s)) =
           forget_durable (state_of (clearAllQuotes (h\<lparr>local_rejects := False\<rparr>) s)) \<and>
         forget_durable (state_of (addQuote h c s)) =
           forget_durable (state_of (addQuote (h\<lparr>local_rejects := False\<rparr>) c s))"
proof -
  let ?ok = "h\<lparr>local_rejects := False\<rparr>"
  have h: "?ok\<lparr>local_rejects := True\<rparr> = h"
    using local_rejects_True [OF assms] by simp
  have i: "forget_durable (state_of (importFromJsonFile h f s)) = forget_durable (state_of (importFromJsonFile ?ok f s))"
    using importFromJsonFile_forget [where h="?ok" and b=True and f=f and s=s] by (simp only: h)
  have cl: "forget_durable (state_of (clearAllQuotes h s)) = forget_durable (state_of (clearAllQuotes ?ok s))"
    using clearAllQuotes_forget [where h="?ok" and b=True and s=s] by (simp only: h)
  have a: "forget_durable (state_of (addQuote h c s)) = forget_durable (state_of (addQuote ?ok c s))"
          "returns (addQuote h c s) = returns (addQuote ?ok c s)"
    using addQuote_forget [where h="?ok" and b=True and c=c and s=s] by (simp_all only: h)
  have s: "saveQuotes h qs s = s\<lparr>console := console s @ [SaveError]\<rparr>"
    using assms by (simp add: saveQuotes_def)
  from s i cl a quotes_forget [OF i] quotes_forget [OF cl] quotes_forget [OF a(1)]
    returns_importFromJsonFile [of h f s] returns_clearAllQuotes [of h s] returns_addQuote [of h c s]
  show ?thesis by blast
qed

text \<open>The collection that a confirmed clearing and an accepted candidate produce.\<close>

lemma quotes_clearAllQuotes_confirmed: "confirm h \<Longrightarrow> quotes (state_of (clearAllQuotes h s)) = []"
  by (simp add: clearAllQuotes_def Let_def)

lemma quotes_addQuote_added:
  assumes "c_text c = Some (JStr t)" and "trim t \<noteq> []"
    and "trim_or_empty (c_author c) = Inr a" and "trim_or_empty (c_category c) = Inr b"
    and "confirm h \<or> Some (JStr (trim t)) \<notin> set (existingTexts (quotes s))"
  shows "quotes (state_of (addQuote h c s)) = quotes s @ [quote_object (trim t) a b]"
proof -
  from assms(1,2) have "t \<noteq> []" by auto
  with assms show ?thesis
    by (auto simp: addQuote_def Let_def session_setItem_def existingTexts_def list_ex_iff)
       (metis imageI)+
qed

text \<open>
  The write to \<open>sessionStorage\<close> in \<open>addQuote\<close> is not inside a \<open>try\<close>, unlike the
  write of \<open>saveQuotes\<close>: when the session store refuses the new quote, \<open>addQuote\<close>
  throws after it has pushed the quote and called \<open>saveQuotes\<close>.
\<close>

lemma addQuote_session_refused:
  assumes "session_rejects h"
    and "c_text c = Some (JStr t)" and "trim t \<noteq> []"
    and "trim_or_empty (c_author c) = Inr a" and "trim_or_empty (c_category c) = Inr b"
    and "confirm h \<or> Some (JStr (trim t)) \<notin> set (existingTexts (quotes s))"
  shows "addQuote h c s =
    Threw QuotaExceededError
      ((saveQuotes h (quotes s @ [quote_object (trim t) a b]) (s\<lparr>quotes := quotes s @ [quote_object (trim t) a b]\<rparr>))
         \<lparr>quoteDisplay := QuoteShown (quote_object (trim t) a b)\<rparr>)"
proof -
  from assms(2,3) have "t \<noteq> []" by auto
  with assms show ?thesis
    by (auto simp: addQuote_def Let_def session_setItem_def existingTexts_def list_ex_iff)
       (metis imageI)+
qed

text \<open>
  Claim C9 says that a mutation whose durable write fails does not raise to its caller.
  The code departs from it for \<open>addQuote\<close>: on a fresh page, with both stores refusing
  the new quote, the quote is pushed, \<open>saveQuotes\<close> logs its error, and the unguarded
  \<open>sessionStorage.setItem\<close> throws QuotaExceededError to the caller (when only
  \<open>localStorage\<close> refuses, the same call returns).
\<close>

theorem addQuote_throws_when_session_write_fails:
  "addQuote (ex_host\<lparr>local_rejects := True, session_rejects := True\<rparr>) (ex_candidate ''hello'') (ex_app []) =
     Threw QuotaExceededError
       ((ex_app [])\<lparr>quotes := [quote_object (str ''hello'') [] []],
                     quoteDisplay := QuoteShown (quote_object (str ''hello'') [] []),
                     console := [SaveError]\<rparr>) \<and>
   returns (addQuote (ex_host\<lparr>local_rejects := True\<rparr>) (ex_candidate ''hello'') (ex_app []))"
  by (simp add: addQuote_def ex_candidate_def ex_app_def ex_host_def Let_def saveQuotes_def
        session_setItem_def populateCategories_def categories_def new_Set_def set_add_def
        array_includes_def trim_def str_def is_ws_def)

text \<open>
  Read off that evaluation: the call does not return, and the collection it leaves
  holds the new quote.
\<close>

theorem addQuote_throws_when_session_write_fails_witness:
  "\<not> returns (addQuote (ex_host\<lparr>local_rejects := True, session_rejects := True\<rparr>)
      (ex_candidate ''hello'') (ex_app [])) \<and>
   quotes (state_of (addQuote (ex_host\<lparr>local_rejects := True, session_rejects := True\<rparr>)
      (ex_candidate ''hello'') (ex_app []))) = [quote_object (str ''hello'') [] []]"
  using addQuote_throws_when_session_write_fails by simp

end
